theory Spec2Isabelle
  imports Main "HOL-Library.Word"
begin

section \<open>Pairing keys: the store of \<^verbatim>\<open>pair.go\<close>\<close>

text \<open>
  The package keeps one value of type \<^verbatim>\<open>Pairs\<close>: the configuration of the key
  generator and two Go maps, \<^verbatim>\<open>devices\<close> (device identifier to record) and
  \<^verbatim>\<open>keys\<close> (key to record). Both operations, \<^verbatim>\<open>Generate\<close> and
  \<^verbatim>\<open>GetDeviceID\<close>, hold the mutex from their first to their last statement, so
  each is modelled as one atomic function from the state before the call to the state
  after it.

  The two maps store pointers to the same \<^verbatim>\<open>keyInfo\<close>. No statement of the file
  writes to a \<^verbatim>\<open>keyInfo\<close> after its creation, so the records are modelled as values.
\<close>

subsection \<open>Data\<close>

text \<open>\<^verbatim>\<open>keyInfo\<close>. A \<^verbatim>\<open>time.Time\<close> is an instant, counted here in nanoseconds.\<close>

record keyInfo =
  DeviceID :: string
  Key :: string
  Time :: int

text \<open>
  A Go map is \<^verbatim>\<open>nil\<close> (\<open>None\<close>) or allocated. Reading a \<^verbatim>\<open>nil\<close> map finds
  nothing and \<^verbatim>\<open>delete\<close> on it does nothing.
\<close>

type_synonym gomap = "(string \<rightharpoonup> keyInfo) option"

definition map_get :: "gomap \<Rightarrow> string \<Rightarrow> keyInfo option" where
  "map_get m k = (case m of None \<Rightarrow> None | Some f \<Rightarrow> f k)"

definition map_delete :: "gomap \<Rightarrow> string \<Rightarrow> gomap" where
  "map_delete m k = (case m of None \<Rightarrow> None | Some f \<Rightarrow> Some (f(k := None)))"

text \<open>
  \<^verbatim>\<open>Pairs\<close>. \<^verbatim>\<open>Length\<close> is a \<^verbatim>\<open>uint8\<close>, \<^verbatim>\<open>MaxIter\<close> a \<^verbatim>\<open>uint16\<close> and
  \<^verbatim>\<open>Expire\<close> a \<^verbatim>\<open>time.Duration\<close>, a signed 64-bit count of nanoseconds. The
  embedded \<^verbatim>\<open>Dictionary\<close> is the alphabet, a sequence of characters whose length the
  code tests.
\<close>

record Pairs =
  Dictionary :: string
  Length :: "8 word"
  Expire :: "64 word"
  MaxIter :: "16 word"
  devices :: gomap
  keys :: gomap

subsection \<open>The clock and the key renderer\<close>

text \<open>
  \<^verbatim>\<open>Generate\<close> and \<^verbatim>\<open>GetDeviceID\<close> read two things from outside: the clock
  (\<^verbatim>\<open>time.Now\<close>, \<^verbatim>\<open>time.Since\<close>) and the method \<^verbatim>\<open>Dictionary.Generate\<close>, which
  renders a random string of a given length and is declared in another file of the
  package. Both are taken as parameters: a world holds the answer of every future
  reading of the clock and of every future call of the renderer, with a counter of the
  readings and calls made so far. Nothing is assumed about either sequence.
\<close>

record world =
  rnd :: "nat \<Rightarrow> string \<Rightarrow> 8 word \<Rightarrow> string"
  rnd_calls :: nat
  clock :: "nat \<Rightarrow> int"
  clock_reads :: nat

definition Dictionary_Generate :: "world \<Rightarrow> string \<Rightarrow> 8 word \<Rightarrow> string \<times> world" where
  "Dictionary_Generate w dict len =
     (rnd w (rnd_calls w) dict len, w\<lparr>rnd_calls := rnd_calls w + 1\<rparr>)"

definition time_Now :: "world \<Rightarrow> int \<times> world" where
  "time_Now w = (clock w (clock_reads w), w\<lparr>clock_reads := clock_reads w + 1\<rparr>)"

text \<open>
  \<^verbatim>\<open>Time.Sub\<close> returns a \<^verbatim>\<open>Duration\<close>; a difference outside the 64-bit range is
  replaced by the largest or smallest duration.
\<close>

definition maxDuration :: int where
  "maxDuration = 2 ^ 63 - 1"

definition minDuration :: int where
  "minDuration = - (2 ^ 63)"

definition time_Sub :: "int \<Rightarrow> int \<Rightarrow> int" where
  "time_Sub t u =
     (let d = t - u in
      if d > maxDuration then maxDuration
      else if d < minDuration then minDuration
      else d)"

definition time_Since :: "world \<Rightarrow> int \<Rightarrow> int \<times> world" where
  "time_Since w t = (case time_Now w of (now, w') \<Rightarrow> (time_Sub now t, w'))"

subsection \<open>Generate\<close>

text \<open>
  The retry loop of lines 69 to 92. It runs on the two allocated maps; \<open>i\<close> is the loop
  counter and \<open>key\<close> the named result variable of \<^verbatim>\<open>Generate\<close>, which every
  iteration overwrites with the candidate it renders.
\<close>

function Generate_loop ::
  "world \<Rightarrow> Pairs \<Rightarrow> string \<Rightarrow> (string \<rightharpoonup> keyInfo) \<Rightarrow> (string \<rightharpoonup> keyInfo) \<Rightarrow> nat \<Rightarrow> string
     \<Rightarrow> world \<times> (string \<rightharpoonup> keyInfo) \<times> (string \<rightharpoonup> keyInfo) \<times> string" where
  "Generate_loop w p deviceID dv ks i key =
     (if i < unat (MaxIter p) then
        (case Dictionary_Generate w (Dictionary p) (Length p) of (key', w1) \<Rightarrow>
           (case ks key' of
              Some kInfo \<Rightarrow>
                (case time_Since w1 (Time kInfo) of (age, w2) \<Rightarrow>
                   if age < sint (Expire p) then
                     Generate_loop w2 p deviceID dv ks (i + 1) key'
                   else
                     (case time_Now w2 of (now, w3) \<Rightarrow>
                        let ks1 = ks(Key kInfo := None);
                            dv1 = dv(DeviceID kInfo := None);
                            kInfo' = \<lparr>DeviceID = deviceID, Key = key', Time = now\<rparr>
                        in (w3, dv1(deviceID \<mapsto> kInfo'), ks1(key' \<mapsto> kInfo'), key')))
            | None \<Rightarrow>
                (case time_Now w1 of (now, w2) \<Rightarrow>
                   let kInfo' = \<lparr>DeviceID = deviceID, Key = key', Time = now\<rparr>
                   in (w2, dv(deviceID \<mapsto> kInfo'), ks(key' \<mapsto> kInfo'), key'))))
      else (w, dv, ks, key))"
  by pat_completeness auto
termination
  by (relation "measure (\<lambda>(w, p, deviceID, dv, ks, i, key). unat (MaxIter p) - i)") auto

declare Generate_loop.simps [simp del]

text \<open>
  \<^verbatim>\<open>Generate\<close>. \<open>DictAlfa\<close> is the default alphabet, a constant declared in another
  file of the package and taken as a parameter. Lines 44 to 49 allocate the maps that
  are \<^verbatim>\<open>nil\<close>, lines 50 to 61 default the configuration, lines 63 to 67 drop the
  record the device already has, and the loop follows. The result is the world and the
  store after the call and the value of \<^verbatim>\<open>key\<close>.
\<close>

definition Generate :: "string \<Rightarrow> world \<Rightarrow> Pairs \<Rightarrow> string \<Rightarrow> world \<times> Pairs \<times> string" where
  "Generate DictAlfa w p deviceID =
     (let dv = (case devices p of None \<Rightarrow> Map.empty | Some m \<Rightarrow> m);
          ks = (case keys p of None \<Rightarrow> Map.empty | Some m \<Rightarrow> m);
          p = (if length (Dictionary p) = 0 then p\<lparr>Dictionary := DictAlfa\<rparr> else p);
          p = (if Length p = 0 then p\<lparr>Length := 6\<rparr> else p);
          p = (if Expire p = 0 then p\<lparr>Expire := 60 * 1000000000 * 30\<rparr> else p);
          p = (if MaxIter p = 0 then p\<lparr>MaxIter := 1000\<rparr> else p);
          (dv, ks) = (case dv deviceID of
                        Some kInfo \<Rightarrow> (dv(DeviceID kInfo := None), ks(Key kInfo := None))
                      | None \<Rightarrow> (dv, ks))
      in case Generate_loop w p deviceID dv ks 0 [] of
           (w', dv', ks', key) \<Rightarrow> (w', p\<lparr>devices := Some dv', keys := Some ks'\<rparr>, key))"

subsection \<open>GetDeviceID\<close>

definition GetDeviceID :: "world \<Rightarrow> Pairs \<Rightarrow> string \<Rightarrow> world \<times> Pairs \<times> string" where
  "GetDeviceID w p key =
     (case map_get (keys p) key of
        Some kInfo \<Rightarrow>
          (let p = p\<lparr>keys := map_delete (keys p) (Key kInfo)\<rparr>;
               p = p\<lparr>devices := map_delete (devices p) (DeviceID kInfo)\<rparr>
           in case time_Since w (Time kInfo) of (age, w') \<Rightarrow>
                (w', p, if age < sint (Expire p) then DeviceID kInfo else []))
      | None \<Rightarrow> (w, p, []))"

subsection \<open>Sequences of calls\<close>

text \<open>
  A caller outside the package can only call the two methods. \<open>run\<close> executes a list of
  calls from left to right, threading the world and the store, and collects the strings
  the calls return.
\<close>

datatype call = Call_Generate string | Call_GetDeviceID string

fun run :: "string \<Rightarrow> world \<Rightarrow> Pairs \<Rightarrow> call list \<Rightarrow> world \<times> Pairs \<times> string list" where
  "run DictAlfa w p [] = (w, p, [])"
| "run DictAlfa w p (c # cs) =
     (case (case c of
              Call_Generate deviceID \<Rightarrow> Generate DictAlfa w p deviceID
            | Call_GetDeviceID key \<Rightarrow> GetDeviceID w p key) of
        (w1, p1, out) \<Rightarrow>
          (case run DictAlfa w1 p1 cs of (w2, p2, outs) \<Rightarrow> (w2, p2, out # outs)))"

subsection \<open>The two maps as indexes of one set of records\<close>

text \<open>
  \<open>index_inv\<close> says that the two maps hold the same records: a record filed in
  \<^verbatim>\<open>devices\<close> is filed there under its own \<^verbatim>\<open>DeviceID\<close> and is the record that
  \<^verbatim>\<open>keys\<close> holds under its \<^verbatim>\<open>Key\<close>, and the other way round.
\<close>

definition index_inv :: "Pairs \<Rightarrow> bool" where
  "index_inv p \<longleftrightarrow>
     (\<forall>d r. map_get (devices p) d = Some r \<longrightarrow>
        DeviceID r = d \<and> map_get (keys p) (Key r) = Some r) \<and>
     (\<forall>k r. map_get (keys p) k = Some r \<longrightarrow>
        Key r = k \<and> map_get (devices p) (DeviceID r) = Some r)"

text \<open>The keys of a Go map, for its \<^verbatim>\<open>len\<close>.\<close>

definition map_dom :: "gomap \<Rightarrow> string set" where
  "map_dom m = {k. map_get m k \<noteq> None}"

text \<open>A well-formed store: the indexes agree and both maps are finite.\<close>

definition store_ok :: "Pairs \<Rightarrow> bool" where
  "store_ok p \<longleftrightarrow> index_inv p \<and> finite (map_dom (devices p)) \<and> finite (map_dom (keys p))"

text \<open>
  The test of lines 72 to 75 for the attempt number \<open>j\<close> (counted from 0) of a call
  that starts in world \<open>w\<close> with the map \<open>ks\<close> as \<^verbatim>\<open>keys\<close>, when every attempt
  before it has collided with a live key: each of those attempts has called the
  renderer once and read the clock once. The attempt is free when its candidate is not
  in \<^verbatim>\<open>keys\<close>, or is there with an age that is not below \<^verbatim>\<open>Expire\<close>.
\<close>

definition attempt_free :: "world \<Rightarrow> Pairs \<Rightarrow> (string \<rightharpoonup> keyInfo) \<Rightarrow> nat \<Rightarrow> bool" where
  "attempt_free w p ks j =
     (case ks (rnd w (rnd_calls w + j) (Dictionary p) (Length p)) of
        None \<Rightarrow> True
      | Some kInfo \<Rightarrow>
          \<not> time_Sub (clock w (clock_reads w + j)) (Time kInfo) < sint (Expire p))"

subsection \<open>Concrete worlds and stores\<close>

text \<open>
  A renderer that returns the same string \<^verbatim>\<open>AAAAAA\<close> at every call, with a clock
  that advances by one nanosecond at every reading, and a renderer that returns
  \<^verbatim>\<open>AAAAAA\<close> at its first call, \<^verbatim>\<open>AAAAAB\<close> at its second and \<^verbatim>\<open>AAAAAC\<close>
  at every later one.
\<close>

definition world_fixed :: world where
  "world_fixed =
     \<lparr>rnd = (\<lambda>n dict len. ''AAAAAA''), rnd_calls = 0, clock = (\<lambda>n. int n), clock_reads = 0\<rparr>"

definition world_fresh :: world where
  "world_fresh =
     \<lparr>rnd = (\<lambda>n dict len. if n = 0 then ''AAAAAA'' else if n = 1 then ''AAAAAB'' else ''AAAAAC''),
      rnd_calls = 0,
      clock = (\<lambda>n. int n), clock_reads = 0\<rparr>"

text \<open>
  The zero value of \<^verbatim>\<open>Pairs\<close>, and the zero value with \<^verbatim>\<open>MaxIter\<close> set to 2 by
  the caller.
\<close>

definition Pairs_zero :: Pairs where
  "Pairs_zero =
     \<lparr>Dictionary = [], Length = 0, Expire = 0, MaxIter = 0, devices = None, keys = None\<rparr>"

definition Pairs_two :: Pairs where
  "Pairs_two = Pairs_zero\<lparr>MaxIter := 2\<rparr>"

text \<open>
  A sample default alphabet, and the world and store after \<^verbatim>\<open>Generate("d1")\<close> on the
  zero value with the second renderer: the store then holds the key \<^verbatim>\<open>AAAAAA\<close>,
  issued to \<^verbatim>\<open>d1\<close> at time 0.
\<close>

definition dict_sample :: string where
  "dict_sample = ''ABCDEFGHIJKLMNOPQRSTUVWXYZ''"

definition world_one :: world where
  "world_one = fst (Generate dict_sample world_fresh Pairs_zero ''d1'')"

definition Pairs_one :: Pairs where
  "Pairs_one = fst (snd (Generate dict_sample world_fresh Pairs_zero ''d1''))"

text \<open>The same world with the clock moved to 30 minutes after time 0.\<close>

definition world_late :: world where
  "world_late = world_one\<lparr>clock := (\<lambda>n. 1800000000000)\<rparr>"

text \<open>
  The world after the first call with the renderer started again: on \<open>Pairs_one\<close> its
  first candidate \<^verbatim>\<open>AAAAAA\<close> is in use and its second, \<^verbatim>\<open>AAAAAB\<close>, is not.
\<close>

definition world_retry :: world where
  "world_retry = world_one\<lparr>rnd_calls := 0\<rparr>"

text \<open>The call \<^verbatim>\<open>Generate("")\<close> in that world on \<open>Pairs_one\<close>.\<close>

definition retry_empty :: "world \<times> Pairs \<times> string" where
  "retry_empty = Generate dict_sample world_retry Pairs_one []"

text \<open>A store configured by the caller before the first call.\<close>

definition Pairs_set :: Pairs where
  "Pairs_set =
     \<lparr>Dictionary = ''01'', Length = 4, Expire = 5000000000, MaxIter = 3,
      devices = None, keys = None\<rparr>"

text \<open>
  The sample call sequence of the index property, and the world and store after a
  second \<^verbatim>\<open>Generate("d1")\<close> on \<open>Pairs_one\<close>.
\<close>

definition calls_sample :: "call list" where
  "calls_sample =
     [Call_Generate ''d1'', Call_Generate ''d2'', Call_GetDeviceID ''AAAAAA'',
      Call_Generate ''d3'']"

definition world_again :: world where
  "world_again = fst (Generate dict_sample world_one Pairs_one ''d1'')"

definition Pairs_again :: Pairs where
  "Pairs_again = fst (snd (Generate dict_sample world_one Pairs_one ''d1''))"

text \<open>
  A renderer that returns \<^verbatim>\<open>AAAAAA\<close>, then \<^verbatim>\<open>AAAAAB\<close>, then \<^verbatim>\<open>AAAAAA\<close> at
  every later call; with two attempts allowed, the three calls \<^verbatim>\<open>Generate("d1")\<close>,
  \<^verbatim>\<open>Generate("d2")\<close>, \<^verbatim>\<open>Generate("d2")\<close> in turn.
\<close>

definition world_stuck :: world where
  "world_stuck =
     \<lparr>rnd = (\<lambda>n dict len. if n = 1 then ''AAAAAB'' else ''AAAAAA''), rnd_calls = 0,
      clock = (\<lambda>n. int n), clock_reads = 0\<rparr>"

definition stuck_1 :: "world \<times> Pairs \<times> string" where
  "stuck_1 = Generate dict_sample world_stuck Pairs_two ''d1''"

definition stuck_2 :: "world \<times> Pairs \<times> string" where
  "stuck_2 = Generate dict_sample (fst stuck_1) (fst (snd stuck_1)) ''d2''"

definition stuck_3 :: "world \<times> Pairs \<times> string" where
  "stuck_3 = Generate dict_sample (fst stuck_2) (fst (snd stuck_2)) ''d2''"

section \<open>Properties\<close>

subsection \<open>What the retry loop returns\<close>

text \<open>
  The loop ends in one of two ways. Either it inserts nothing: the maps are unchanged,
  and the returned \<open>key\<close> is the last candidate rendered, which \<^verbatim>\<open>keys\<close> holds (or
  the initial value when the loop body never ran). Or it inserts one record under the
  returned key, after dropping the record that \<^verbatim>\<open>keys\<close> held under that key, if any.
\<close>

lemma Generate_loop_result:
  assumes "Generate_loop w p d dv ks i key = (w', dv', ks', key')"
  shows "(dv' = dv \<and> ks' = ks \<and> (if i < unat (MaxIter p) then ks key' \<noteq> None else key' = key))
       \<or> (\<exists>now. dv' = (case ks key' of None \<Rightarrow> dv | Some r \<Rightarrow> dv(DeviceID r := None))
                        (d \<mapsto> \<lparr>DeviceID = d, Key = key', Time = now\<rparr>)
              \<and> ks' = (case ks key' of None \<Rightarrow> ks | Some r \<Rightarrow> ks(Key r := None))
                        (key' \<mapsto> \<lparr>DeviceID = d, Key = key', Time = now\<rparr>))"
  using assms
proof (induction w p d dv ks i key rule: Generate_loop.induct)
  case (1 w p deviceID dv ks i key)
  show ?case
  proof (cases "i < unat (MaxIter p)")
    case False
    with "1.prems" show ?thesis
      by (simp add: Generate_loop.simps)
  next
    case True
    obtain c w1 where g: "Dictionary_Generate w (Dictionary p) (Length p) = (c, w1)"
      by (cases "Dictionary_Generate w (Dictionary p) (Length p)")
    show ?thesis
    proof (cases "ks c")
      case None
      obtain now w2 where n: "time_Now w1 = (now, w2)" by (cases "time_Now w1")
      from "1.prems" True g None n
      have "key' = c" "dv' = dv(deviceID \<mapsto> \<lparr>DeviceID = deviceID, Key = c, Time = now\<rparr>)"
           "ks' = ks(c \<mapsto> \<lparr>DeviceID = deviceID, Key = c, Time = now\<rparr>)"
        by (auto simp: Generate_loop.simps [of w] Let_def)
      with None show ?thesis by (intro disjI2 exI [of _ now]) (simp add: fun_eq_iff)
    next
      case (Some kInfo)
      obtain age w2 where s: "time_Since w1 (Time kInfo) = (age, w2)"
        by (cases "time_Since w1 (Time kInfo)")
      show ?thesis
      proof (cases "age < sint (Expire p)")
        case live: True
        from "1.prems" True g Some s live
        have r: "Generate_loop w2 p deviceID dv ks (i + 1) c = (w', dv', ks', key')"
          by (simp add: Generate_loop.simps [of w])
        from "1.IH" [OF True g [symmetric] Some s [symmetric] live r]
        show ?thesis using True Some
          by (auto split: if_splits)
      next
        case dead: False
        obtain now w3 where n: "time_Now w2 = (now, w3)" by (cases "time_Now w2")
        from "1.prems" True g Some s dead n
        have "key' = c"
          "dv' = (dv(DeviceID kInfo := None))(deviceID \<mapsto> \<lparr>DeviceID = deviceID, Key = c, Time = now\<rparr>)"
          "ks' = (ks(Key kInfo := None))(c \<mapsto> \<lparr>DeviceID = deviceID, Key = c, Time = now\<rparr>)"
          by (auto simp: Generate_loop.simps [of w] Let_def)
        with Some show ?thesis by (intro disjI2 exI [of _ now]) (simp add: fun_eq_iff)
      qed
    qed
  qed
qed

subsection \<open>The store after a call\<close>

lemma index_invI:
  assumes "\<And>d r. map_get (devices p) d = Some r \<Longrightarrow> DeviceID r = d \<and> map_get (keys p) (Key r) = Some r"
      and "\<And>k r. map_get (keys p) k = Some r \<Longrightarrow> Key r = k \<and> map_get (devices p) (DeviceID r) = Some r"
  shows "index_inv p"
  using assms unfolding index_inv_def by blast

lemma index_inv_devices:
  "index_inv p \<Longrightarrow> map_get (devices p) d = Some r \<Longrightarrow> DeviceID r = d \<and> map_get (keys p) (Key r) = Some r"
  unfolding index_inv_def by blast

lemma index_inv_keys:
  "index_inv p \<Longrightarrow> map_get (keys p) k = Some r \<Longrightarrow> Key r = k \<and> map_get (devices p) (DeviceID r) = Some r"
  unfolding index_inv_def by blast


lemma Generate_unfold:
  "Generate DictAlfa w p d =
     (let pc = p\<lparr>Dictionary := (if Dictionary p = [] then DictAlfa else Dictionary p),
                  Length := (if Length p = 0 then 6 else Length p),
                  Expire := (if Expire p = 0 then 1800000000000 else Expire p),
                  MaxIter := (if MaxIter p = 0 then 1000 else MaxIter p)\<rparr>;
          dv = map_get (devices p); ks = map_get (keys p);
          dvks = (case dv d of
                    Some kInfo \<Rightarrow> (dv(DeviceID kInfo := None), ks(Key kInfo := None))
                  | None \<Rightarrow> (dv, ks))
      in case Generate_loop w pc d (fst dvks) (snd dvks) 0 [] of
           (w', dv', ks', key) \<Rightarrow> (w', pc\<lparr>devices := Some dv', keys := Some ks'\<rparr>, key))"
proof -
  have dv0: "(case devices p of None \<Rightarrow> Map.empty | Some m \<Rightarrow> m) = map_get (devices p)"
    by (auto simp: map_get_def fun_eq_iff split: option.splits)
  have ks0: "(case keys p of None \<Rightarrow> Map.empty | Some m \<Rightarrow> m) = map_get (keys p)"
    by (auto simp: map_get_def fun_eq_iff split: option.splits)
  show ?thesis
    unfolding Generate_def dv0 ks0
    by (cases "Dictionary p = []"; cases "Length p = 0"; cases "Expire p = 0";
        cases "MaxIter p = 0"; cases "map_get (devices p) d"; simp add: Let_def)
qed


lemma Generate_cases:
  assumes inv: "index_inv p"
      and gen: "Generate DictAlfa w p d = (w', p', k)"
  defines "dvA \<equiv> (map_get (devices p))(d := None)"
      and "ksA \<equiv> (case map_get (devices p) d of None \<Rightarrow> map_get (keys p)
                  | Some r \<Rightarrow> (map_get (keys p))(Key r := None))"
  shows "(map_get (devices p') = dvA \<and> map_get (keys p') = ksA \<and> ksA k \<noteq> None)
       \<or> (\<exists>now. map_get (devices p') =
                   (case ksA k of None \<Rightarrow> dvA | Some r \<Rightarrow> dvA(DeviceID r := None))
                     (d \<mapsto> \<lparr>DeviceID = d, Key = k, Time = now\<rparr>)
              \<and> map_get (keys p') =
                   (case ksA k of None \<Rightarrow> ksA | Some r \<Rightarrow> ksA(Key r := None))
                     (k \<mapsto> \<lparr>DeviceID = d, Key = k, Time = now\<rparr>))"
proof -
  define pc where "pc = p\<lparr>Dictionary := (if Dictionary p = [] then DictAlfa else Dictionary p),
                  Length := (if Length p = 0 then 6 else Length p),
                  Expire := (if Expire p = 0 then 1800000000000 else Expire p),
                  MaxIter := (if MaxIter p = 0 then 1000 else MaxIter p)\<rparr>"
  have mi: "0 < unat (MaxIter pc)"
    by (simp add: pc_def unat_gt_0)
  have step3: "(case map_get (devices p) d of
                  Some kInfo \<Rightarrow> ((map_get (devices p))(DeviceID kInfo := None),
                                 (map_get (keys p))(Key kInfo := None))
                | None \<Rightarrow> (map_get (devices p), map_get (keys p))) = (dvA, ksA)"
  proof (cases "map_get (devices p) d")
    case None
    then show ?thesis by (auto simp: dvA_def ksA_def fun_eq_iff)
  next
    case (Some r)
    with inv have "DeviceID r = d" by (simp add: index_inv_devices)
    with Some show ?thesis by (simp add: dvA_def ksA_def)
  qed
  obtain w1 dv' ks' k' where loop: "Generate_loop w pc d dvA ksA 0 [] = (w1, dv', ks', k')"
    by (cases "Generate_loop w pc d dvA ksA 0 []")
  from gen have "(w1, pc\<lparr>devices := Some dv', keys := Some ks'\<rparr>, k') = (w', p', k)"
    unfolding Generate_unfold Let_def step3 pc_def [symmetric]
    by (simp add: loop)
  then have p': "map_get (devices p') = dv'" "map_get (keys p') = ks'" "k' = k"
    by (auto simp: map_get_def fun_eq_iff)
  from Generate_loop_result [OF loop] mi show ?thesis
    unfolding p' by simp
qed

lemma Generate_index_inv:
  assumes inv: "index_inv p"
      and gen: "Generate DictAlfa w p d = (w', p', k)"
  shows "index_inv p'"
proof -
  define dvA where "dvA = (map_get (devices p))(d := None)"
  define ksA where "ksA = (case map_get (devices p) d of None \<Rightarrow> map_get (keys p)
                  | Some r \<Rightarrow> (map_get (keys p))(Key r := None))"
  have A1: "DeviceID r = d' \<and> ksA (Key r) = Some r" if "dvA d' = Some r" for d' r
  proof -
    from that have r: "map_get (devices p) d' = Some r" "d' \<noteq> d"
      by (auto simp: dvA_def split: if_splits)
    then have kr: "DeviceID r = d'" "map_get (keys p) (Key r) = Some r"
      using index_inv_devices [OF inv] by auto
    show ?thesis
    proof (cases "map_get (devices p) d")
      case None
      then show ?thesis using kr by (simp add: ksA_def)
    next
      case (Some a)
      then have "DeviceID a = d" "map_get (keys p) (Key a) = Some a"
        using index_inv_devices [OF inv] by auto
      with kr r have "Key a \<noteq> Key r" by auto
      with Some kr show ?thesis by (simp add: ksA_def)
    qed
  qed
  have A2: "Key r = k' \<and> dvA (DeviceID r) = Some r" if "ksA k' = Some r" for k' r
    using that index_inv_devices [OF inv] index_inv_keys [OF inv]
    by (cases "map_get (devices p) d") (auto simp: dvA_def ksA_def split: if_splits)
  have A3: "dvA d = None" by (simp add: dvA_def)
  from Generate_cases [OF inv gen, folded dvA_def ksA_def]
  show ?thesis
  proof (elim disjE conjE exE)
    assume "map_get (devices p') = dvA" "map_get (keys p') = ksA"
    then show ?thesis using A1 A2 by (intro index_invI) auto
  next
    fix now
    assume D: "map_get (devices p') =
                 (case ksA k of None \<Rightarrow> dvA | Some r \<Rightarrow> dvA(DeviceID r := None))
                   (d \<mapsto> \<lparr>DeviceID = d, Key = k, Time = now\<rparr>)"
       and K: "map_get (keys p') =
                 (case ksA k of None \<Rightarrow> ksA | Some r \<Rightarrow> ksA(Key r := None))
                   (k \<mapsto> \<lparr>DeviceID = d, Key = k, Time = now\<rparr>)"
    show ?thesis
    proof (cases "ksA k")
      case None
      show ?thesis
      proof (rule index_invI)
        fix d' r assume "map_get (devices p') d' = Some r"
        then show "DeviceID r = d' \<and> map_get (keys p') (Key r) = Some r"
          using A1 [of d' r] None unfolding D K by (auto split: if_splits)
      next
        fix k' r assume "map_get (keys p') k' = Some r"
        then show "Key r = k' \<and> map_get (devices p') (DeviceID r) = Some r"
          using A2 [of k' r] A3 None unfolding D K by (auto split: if_splits)
      qed
    next
      case (Some old)
      have o: "Key old = k" "dvA (DeviceID old) = Some old" using A2 [OF Some] by simp_all
      show ?thesis
      proof (rule index_invI)
        fix d' r assume "map_get (devices p') d' = Some r"
        then show "DeviceID r = d' \<and> map_get (keys p') (Key r) = Some r"
          using A1 [of d' r] A2 [of "Key r" r] Some o unfolding D K
          by (auto split: if_splits)
      next
        fix k' r assume "map_get (keys p') k' = Some r"
        then show "Key r = k' \<and> map_get (devices p') (DeviceID r) = Some r"
          using A2 [of k' r] A3 Some o unfolding D K by (auto split: if_splits)
      qed
    qed
  qed
qed


lemma Generate_success:
  assumes inv: "index_inv p"
      and gen: "Generate DictAlfa w p d = (w', p', k)"
      and dev: "map_get (devices p') d = Some r"
  shows "r = \<lparr>DeviceID = d, Key = k, Time = Time r\<rparr> \<and> map_get (keys p') k = Some r"
  using Generate_cases [OF inv gen] dev
  by (elim disjE conjE exE) auto

lemma Generate_exhausted:
  assumes inv: "index_inv p"
      and gen: "Generate DictAlfa w p d = (w', p', k)"
      and dev: "map_get (devices p') d = None"
  shows "map_get (devices p') = (map_get (devices p))(d := None)"
    and "map_get (keys p') = (case map_get (devices p) d of None \<Rightarrow> map_get (keys p)
                  | Some r \<Rightarrow> (map_get (keys p))(Key r := None))"
    and "map_get (keys p') k \<noteq> None"
  using Generate_cases [OF inv gen] dev
  by (elim disjE conjE exE; simp)+

lemma Generate_map_dom:
  assumes inv: "index_inv p"
      and gen: "Generate DictAlfa w p d = (w', p', k)"
  shows "map_dom (devices p') \<subseteq> insert d (map_dom (devices p))"
    and "map_dom (keys p') \<subseteq> insert k (map_dom (keys p))"
  using Generate_cases [OF inv gen]
  by (elim disjE conjE exE; auto simp: map_dom_def split: option.splits if_splits)+

lemma GetDeviceID_miss:
  "map_get (keys p) key = None \<Longrightarrow> GetDeviceID w p key = (w, p, [])"
  by (simp add: GetDeviceID_def)

lemma GetDeviceID_hit:
  assumes "map_get (keys p) key = Some r"
  shows "GetDeviceID w p key =
           (snd (time_Since w (Time r)),
            p\<lparr>keys := map_delete (keys p) (Key r),
              devices := map_delete (devices p) (DeviceID r)\<rparr>,
            if fst (time_Since w (Time r)) < sint (Expire p) then DeviceID r else [])"
  using assms by (simp add: GetDeviceID_def Let_def split: prod.splits)

lemma map_get_delete: "map_get (map_delete m k) = (map_get m)(k := None)"
  by (auto simp: map_get_def map_delete_def fun_eq_iff split: option.splits)

lemma GetDeviceID_index_inv:
  assumes inv: "index_inv p"
      and get: "GetDeviceID w p key = (w', p', out)"
  shows "index_inv p'"
proof (cases "map_get (keys p) key")
  case None
  with get inv show ?thesis by (simp add: GetDeviceID_miss)
next
  case (Some r)
  from get have p': "map_get (keys p') = (map_get (keys p))(Key r := None)"
      "map_get (devices p') = (map_get (devices p))(DeviceID r := None)"
    unfolding GetDeviceID_hit [OF Some] by (auto simp: map_get_delete)
  have r: "Key r = key" "map_get (devices p) (DeviceID r) = Some r"
    using index_inv_keys [OF inv Some] by simp_all
  show ?thesis
  proof (rule index_invI)
    fix d' r' assume "map_get (devices p') d' = Some r'"
    then have a: "d' \<noteq> DeviceID r" "map_get (devices p) d' = Some r'"
      by (auto simp: p' split: if_splits)
    then have b: "DeviceID r' = d'" "map_get (keys p) (Key r') = Some r'"
      using index_inv_devices [OF inv] by auto
    have "Key r' \<noteq> Key r"
    proof
      assume "Key r' = Key r"
      with b(2) Some r(1) have "r' = r" by (metis option.inject)
      with b(1) a(1) show False by simp
    qed
    with b show "DeviceID r' = d' \<and> map_get (keys p') (Key r') = Some r'"
      by (simp add: p')
  next
    fix k' r' assume "map_get (keys p') k' = Some r'"
    then have a: "k' \<noteq> Key r" "map_get (keys p) k' = Some r'"
      by (auto simp: p' split: if_splits)
    then have b: "Key r' = k'" "map_get (devices p) (DeviceID r') = Some r'"
      using index_inv_keys [OF inv] by auto
    have "DeviceID r' \<noteq> DeviceID r"
    proof
      assume "DeviceID r' = DeviceID r"
      with b(2) r(2) have "r' = r" by (metis option.inject)
      with b(1) a(1) show False by simp
    qed
    with b show "Key r' = k' \<and> map_get (devices p') (DeviceID r') = Some r'"
      by (simp add: p')
  qed
qed

lemma GetDeviceID_map_dom:
  assumes get: "GetDeviceID w p key = (w', p', out)"
  shows "map_dom (devices p') \<subseteq> map_dom (devices p)"
    and "map_dom (keys p') \<subseteq> map_dom (keys p)"
  using get
  by (cases "map_get (keys p) key";
      auto simp: GetDeviceID_miss GetDeviceID_hit map_dom_def map_get_delete split: if_splits)+

lemma run_store_ok:
  assumes "store_ok p" "run DictAlfa w p cs = (w', p', outs)"
  shows "store_ok p'"
  using assms
proof (induction cs arbitrary: w p outs)
  case Nil
  then show ?case by simp
next
  case (Cons c cs)
  obtain w1 p1 out where step:
    "(case c of Call_Generate deviceID \<Rightarrow> Generate DictAlfa w p deviceID
      | Call_GetDeviceID key \<Rightarrow> GetDeviceID w p key) = (w1, p1, out)"
    by (metis prod_cases3)
  obtain w2 p2 outs2 where rest: "run DictAlfa w1 p1 cs = (w2, p2, outs2)"
    by (metis prod_cases3)
  from Cons.prems(2) step rest have rest': "run DictAlfa w1 p1 cs = (w', p', outs2)" by simp
  have "store_ok p1"
  proof (cases c)
    case (Call_Generate d)
    with step have g: "Generate DictAlfa w p d = (w1, p1, out)" by simp
    from Cons.prems(1) have inv: "index_inv p" by (simp add: store_ok_def)
    from Generate_map_dom [OF inv g] Cons.prems(1) Generate_index_inv [OF inv g]
    show ?thesis
      unfolding store_ok_def by (meson finite.insertI finite_subset)
  next
    case (Call_GetDeviceID k)
    with step have g: "GetDeviceID w p k = (w1, p1, out)" by simp
    from Cons.prems(1) have inv: "index_inv p" by (simp add: store_ok_def)
    from GetDeviceID_map_dom [OF g] Cons.prems(1) GetDeviceID_index_inv [OF inv g]
    show ?thesis
      unfolding store_ok_def by (meson finite_subset)
  qed
  from Cons.IH [OF this rest'] show ?case .
qed

lemma index_inv_card:
  assumes "index_inv p"
  shows "card (map_dom (devices p)) = card (map_dom (keys p))"
proof (rule bij_betw_same_card)
  show "bij_betw (\<lambda>d. Key (the (map_get (devices p) d))) (map_dom (devices p)) (map_dom (keys p))"
  proof (rule bij_betwI')
    fix x y assume "x \<in> map_dom (devices p)" "y \<in> map_dom (devices p)"
    then obtain rx ry where r: "map_get (devices p) x = Some rx" "map_get (devices p) y = Some ry"
      by (auto simp: map_dom_def)
    with index_inv_devices [OF assms] 
    have "DeviceID rx = x" "map_get (keys p) (Key rx) = Some rx"
         "DeviceID ry = y" "map_get (keys p) (Key ry) = Some ry" by auto
    then have "Key rx = Key ry \<longleftrightarrow> x = y"
      using r by (metis option.inject)
    with r show "(Key (the (map_get (devices p) x)) = Key (the (map_get (devices p) y))) = (x = y)"
      by simp
  next
    fix x assume "x \<in> map_dom (devices p)"
    then show "Key (the (map_get (devices p) x)) \<in> map_dom (keys p)"
      using index_inv_devices [OF assms] by (auto simp: map_dom_def)
  next
    fix k assume "k \<in> map_dom (keys p)"
    then obtain r where "map_get (keys p) k = Some r" by (auto simp: map_dom_def)
    with index_inv_keys [OF assms] have "Key r = k" "map_get (devices p) (DeviceID r) = Some r"
      by auto
    then show "\<exists>x\<in>map_dom (devices p). k = Key (the (map_get (devices p) x))"
      by (intro bexI [of _ "DeviceID r"]) (auto simp: map_dom_def)
  qed
qed

lemma Generate_config:
  assumes "Generate DictAlfa w p d = (w', p', k)"
  shows "Dictionary p' = (if Dictionary p = [] then DictAlfa else Dictionary p)"
    and "Length p' = (if Length p = 0 then 6 else Length p)"
    and "Expire p' = (if Expire p = 0 then 1800000000000 else Expire p)"
    and "MaxIter p' = (if MaxIter p = 0 then 1000 else MaxIter p)"
  using assms unfolding Generate_unfold Let_def
  by (auto split: prod.splits)

lemma Generate_loop_world:
  assumes "Generate_loop w p d dv ks i key = (w', dv', ks', key')"
  shows "rnd w' = rnd w \<and> clock w' = clock w
       \<and> rnd_calls w \<le> rnd_calls w'
       \<and> rnd_calls w' \<le> rnd_calls w + (unat (MaxIter p) - i)
       \<and> (i < unat (MaxIter p) \<longrightarrow> rnd_calls w < rnd_calls w')
       \<and> clock_reads w \<le> clock_reads w'
       \<and> clock_reads w' \<le> clock_reads w + (rnd_calls w' - rnd_calls w) + 1"
  using assms
proof (induction w p d dv ks i key rule: Generate_loop.induct)
  case (1 w p deviceID dv ks i key)
  show ?case
  proof (cases "i < unat (MaxIter p)")
    case False
    with "1.prems" show ?thesis
      by (simp add: Generate_loop.simps)
  next
    case True
    define c where "c = rnd w (rnd_calls w) (Dictionary p) (Length p)"
    define w1 where "w1 = w\<lparr>rnd_calls := rnd_calls w + 1\<rparr>"
    have g: "Dictionary_Generate w (Dictionary p) (Length p) = (c, w1)"
      by (simp add: Dictionary_Generate_def c_def w1_def)
    show ?thesis
    proof (cases "ks c")
      case None
      from "1.prems" True g None
      have "w' = w1\<lparr>clock_reads := clock_reads w1 + 1\<rparr>"
        by (auto simp: Generate_loop.simps [of w] Let_def time_Now_def)
      then show ?thesis using True by (simp add: w1_def)
    next
      case (Some kInfo)
      define w2 where "w2 = w1\<lparr>clock_reads := clock_reads w1 + 1\<rparr>"
      define age where "age = time_Sub (clock w1 (clock_reads w1)) (Time kInfo)"
      have s: "time_Since w1 (Time kInfo) = (age, w2)"
        by (simp add: time_Since_def time_Now_def w2_def age_def)
      show ?thesis
      proof (cases "age < sint (Expire p)")
        case live: True
        from "1.prems" True g Some s live
        have r: "Generate_loop w2 p deviceID dv ks (i + 1) c = (w', dv', ks', key')"
          by (simp add: Generate_loop.simps [of w])
        from "1.IH" [OF True g [symmetric] Some s [symmetric] live r]
        show ?thesis using True
          by (auto simp: w2_def w1_def)
      next
        case dead: False
        from "1.prems" True g Some s dead
        have "w' = w2\<lparr>clock_reads := clock_reads w2 + 1\<rparr>"
          by (auto simp: Generate_loop.simps [of w] Let_def time_Now_def)
        then show ?thesis using True by (simp add: w2_def w1_def)
      qed
    qed
  qed
qed

lemma run_replicate_miss:
  assumes "map_get (keys p) k = None"
  shows "run DictAlfa w p (replicate n (Call_GetDeviceID k)) = (w, p, replicate n [])"
  using assms by (induction n) (simp_all add: GetDeviceID_miss)

subsection \<open>When the retry loop inserts\<close>

text \<open>
  If one of the attempts the loop is allowed is free, the loop inserts a record for the
  device, whatever the device identifier is.
\<close>

lemma Generate_loop_inserts:
  assumes "Generate_loop w p d dv ks i key = (w', dv', ks', key')"
      and "\<exists>j. i + j < unat (MaxIter p) \<and> attempt_free w p ks j"
  shows "dv' d \<noteq> None"
  using assms
proof (induction w p d dv ks i key rule: Generate_loop.induct)
  case (1 w p deviceID dv ks i key)
  from "1.prems"(2) obtain j where j: "i + j < unat (MaxIter p)" "attempt_free w p ks j"
    by blast
  then have True: "i < unat (MaxIter p)" by simp
  define c where "c = rnd w (rnd_calls w) (Dictionary p) (Length p)"
  define w1 where "w1 = w\<lparr>rnd_calls := rnd_calls w + 1\<rparr>"
  have g: "Dictionary_Generate w (Dictionary p) (Length p) = (c, w1)"
    by (simp add: Dictionary_Generate_def c_def w1_def)
  show ?case
  proof (cases "ks c")
    case None
    from "1.prems"(1) True g None show ?thesis
      by (auto simp: Generate_loop.simps [of w] Let_def split: prod.splits)
  next
    case (Some kInfo)
    define w2 where "w2 = w1\<lparr>clock_reads := clock_reads w1 + 1\<rparr>"
    define age where "age = time_Sub (clock w1 (clock_reads w1)) (Time kInfo)"
    have s: "time_Since w1 (Time kInfo) = (age, w2)"
      by (simp add: time_Since_def time_Now_def w2_def age_def)
    show ?thesis
    proof (cases "age < sint (Expire p)")
      case live: True
      from "1.prems"(1) True g Some s live
      have r: "Generate_loop w2 p deviceID dv ks (i + 1) c = (w', dv', ks', key')"
        by (simp add: Generate_loop.simps [of w])
      from Some live have "\<not> attempt_free w p ks 0"
        by (simp add: attempt_free_def c_def age_def w1_def)
      with j(2) obtain j' where j': "j = Suc j'"
        by (cases j) auto
      have "attempt_free w2 p ks j' = attempt_free w p ks (Suc j')"
        by (simp add: attempt_free_def w2_def w1_def split: option.split)
      with j j' have "\<exists>j. i + 1 + j < unat (MaxIter p) \<and> attempt_free w2 p ks j"
        by (intro exI [of _ j']) simp
      from "1.IH" [OF True g [symmetric] Some s [symmetric] live r this]
      show ?thesis .
    next
      case dead: False
      from "1.prems"(1) True g Some s dead show ?thesis
        by (auto simp: Generate_loop.simps [of w] Let_def split: prod.splits)
    qed
  qed
qed

lemma Generate_inserts:
  assumes inv: "index_inv p"
      and gen: "Generate DictAlfa w p d = (w1, p1, k)"
      and j: "j < unat (MaxIter p1)"
      and free: "attempt_free w p1
                   (case map_get (devices p) d of None \<Rightarrow> map_get (keys p)
                    | Some r \<Rightarrow> (map_get (keys p))(Key r := None)) j"
  shows "\<exists>t. map_get (devices p1) d = Some \<lparr>DeviceID = d, Key = k, Time = t\<rparr>
           \<and> map_get (keys p1) k = Some \<lparr>DeviceID = d, Key = k, Time = t\<rparr>"
proof -
  define dvA where "dvA = (map_get (devices p))(d := None)"
  define ksA where "ksA = (case map_get (devices p) d of None \<Rightarrow> map_get (keys p)
                    | Some r \<Rightarrow> (map_get (keys p))(Key r := None))"
  define pc where "pc = p\<lparr>Dictionary := (if Dictionary p = [] then DictAlfa else Dictionary p),
                  Length := (if Length p = 0 then 6 else Length p),
                  Expire := (if Expire p = 0 then 1800000000000 else Expire p),
                  MaxIter := (if MaxIter p = 0 then 1000 else MaxIter p)\<rparr>"
  have step3: "(case map_get (devices p) d of
                  Some kInfo \<Rightarrow> ((map_get (devices p))(DeviceID kInfo := None),
                                 (map_get (keys p))(Key kInfo := None))
                | None \<Rightarrow> (map_get (devices p), map_get (keys p))) = (dvA, ksA)"
  proof (cases "map_get (devices p) d")
    case None
    then show ?thesis by (auto simp: dvA_def ksA_def fun_eq_iff)
  next
    case (Some r)
    with inv have "DeviceID r = d" by (simp add: index_inv_devices)
    with Some show ?thesis by (simp add: dvA_def ksA_def)
  qed
  obtain w' dv' ks' k' where loop: "Generate_loop w pc d dvA ksA 0 [] = (w', dv', ks', k')"
    by (cases "Generate_loop w pc d dvA ksA 0 []")
  from gen have "(w', pc\<lparr>devices := Some dv', keys := Some ks'\<rparr>, k') = (w1, p1, k)"
    unfolding Generate_unfold Let_def step3 pc_def [symmetric]
    by (simp add: loop)
  then have p1: "p1 = pc\<lparr>devices := Some dv', keys := Some ks'\<rparr>" by simp
  have cfg: "attempt_free w p1 ksA j = attempt_free w pc ksA j" "MaxIter p1 = MaxIter pc"
    by (simp_all add: p1 attempt_free_def split: option.split)
  from j free have "\<exists>j. 0 + j < unat (MaxIter pc) \<and> attempt_free w pc ksA j"
    unfolding ksA_def [symmetric] cfg by auto
  from Generate_loop_inserts [OF loop this] have "map_get (devices p1) d \<noteq> None"
    by (simp add: p1 map_get_def)
  then obtain r where r: "map_get (devices p1) d = Some r" by blast
  from Generate_success [OF inv gen r]
  have "r = \<lparr>DeviceID = d, Key = k, Time = Time r\<rparr>" "map_get (keys p1) k = Some r"
    by simp_all
  with r show ?thesis by metis
qed

subsection \<open>The sample stores\<close>

text \<open>The equations that evaluate the model on a concrete input.\<close>

lemmas eval_defs =
  Generate_def GetDeviceID_def Generate_loop.simps Dictionary_Generate_def time_Now_def
  time_Since_def time_Sub_def maxDuration_def minDuration_def map_get_def map_delete_def
  Let_def world_fixed_def world_fresh_def Pairs_zero_def Pairs_two_def dict_sample_def
  world_one_def Pairs_one_def world_late_def Pairs_set_def calls_sample_def
  world_again_def Pairs_again_def world_stuck_def stuck_1_def stuck_2_def stuck_3_def
  world_retry_def retry_empty_def attempt_free_def

lemma Pairs_one_eval:
  "Generate dict_sample world_fresh Pairs_zero ''d1'' = (world_one, Pairs_one, ''AAAAAA'')"
  "map_get (devices Pairs_one) ''d1'' = Some \<lparr>DeviceID = ''d1'', Key = ''AAAAAA'', Time = 0\<rparr>"
  "map_get (keys Pairs_one) ''AAAAAA'' = Some \<lparr>DeviceID = ''d1'', Key = ''AAAAAA'', Time = 0\<rparr>"
  "map_get (keys Pairs_one) ''nonexistent'' = None"
  "Expire Pairs_one = 1800000000000"
  "clock world_one (clock_reads world_one) = 1"
  by (simp_all add: eval_defs prod_eq_iff)

lemma index_inv_zero: "index_inv Pairs_zero"
  by (simp add: index_inv_def Pairs_zero_def map_get_def)

lemma index_inv_one: "index_inv Pairs_one"
  by (rule Generate_index_inv [OF index_inv_zero Pairs_one_eval(1)])

lemma index_inv_two: "index_inv Pairs_two"
  by (simp add: index_inv_def Pairs_two_def Pairs_zero_def map_get_def)

lemma Pairs_again_eval:
  "Generate dict_sample world_one Pairs_one ''d1'' = (world_again, Pairs_again, ''AAAAAB'')"
  "map_get (devices Pairs_again) ''d1'' = Some \<lparr>DeviceID = ''d1'', Key = ''AAAAAB'', Time = 1\<rparr>"
  "map_get (keys Pairs_again) ''AAAAAA'' = None"
  "Expire Pairs_again = 1800000000000"
  "clock world_again (clock_reads world_again) = 2"
  by (simp_all add: eval_defs prod_eq_iff)

lemma stuck_eval:
  "Generate dict_sample world_stuck Pairs_two ''d1'' = (fst stuck_1, fst (snd stuck_1), ''AAAAAA'')"
  "Generate dict_sample (fst stuck_1) (fst (snd stuck_1)) ''d2''
     = (fst stuck_2, fst (snd stuck_2), ''AAAAAB'')"
  "Generate dict_sample (fst stuck_2) (fst (snd stuck_2)) ''d2''
     = (fst stuck_3, fst (snd stuck_3), ''AAAAAA'')"
  "map_get (devices (fst (snd stuck_2))) ''d2''
     = Some \<lparr>DeviceID = ''d2'', Key = ''AAAAAB'', Time = 1\<rparr>"
  "map_get (devices (fst (snd stuck_3))) ''d2'' = None"
  "map_get (keys (fst (snd stuck_3))) ''AAAAAB'' = None"
  by (simp_all add: eval_defs prod_eq_iff)

lemma retry_empty_eval:
  "Generate dict_sample world_retry Pairs_one []
     = (fst retry_empty, fst (snd retry_empty), ''AAAAAB'')"
  "map_get (devices Pairs_one) [] = None"
  "(1::nat) < unat (MaxIter (fst (snd retry_empty)))"
  "\<not> attempt_free world_retry (fst (snd retry_empty)) (map_get (keys Pairs_one)) 0"
  "attempt_free world_retry (fst (snd retry_empty)) (map_get (keys Pairs_one)) 1"
  "map_get (keys (fst (snd retry_empty))) ''AAAAAA''
     = Some \<lparr>DeviceID = ''d1'', Key = ''AAAAAA'', Time = 0\<rparr>"
  by (simp_all add: eval_defs prod_eq_iff)


section \<open>The claims\<close>

text \<open>
  C1. The specification says that \<^verbatim>\<open>Generate\<close> returns the empty string when every
  attempt collides with a live key. The code returns the named result \<^verbatim>\<open>key\<close>, which
  the loop has overwritten with each candidate: with the renderer fixed to
  \<^verbatim>\<open>AAAAAA\<close> and two attempts allowed, \<^verbatim>\<open>Generate("d1")\<close> takes the key, and
  \<^verbatim>\<open>Generate("d2")\<close> uses both attempts, inserts nothing for \<^verbatim>\<open>d2\<close> and returns
  \<^verbatim>\<open>AAAAAA\<close>, not the empty string.
\<close>

theorem Generate_exhausted_returns_candidate:
  "snd (snd (run dict_sample world_fixed Pairs_two [Call_Generate ''d1'', Call_Generate ''d2'']))
     = [''AAAAAA'', ''AAAAAA'']
   \<and> map_get (devices (fst (snd (run dict_sample world_fixed Pairs_two
         [Call_Generate ''d1'', Call_Generate ''d2''])))) ''d2'' = None
   \<and> rnd_calls (fst (run dict_sample world_fixed Pairs_two
         [Call_Generate ''d1'', Call_Generate ''d2''])) = 3"
  by (simp add: eval_defs)

text \<open>
  C2. The specification says that the non-empty keys returned to distinct devices, with
  no redemption and no expiry in between, are pairwise distinct. With the renderer fixed
  to \<^verbatim>\<open>AAAAAA\<close> and two attempts allowed, three calls for three devices within three
  nanoseconds all return \<^verbatim>\<open>AAAAAA\<close>, while the store holds that key for \<^verbatim>\<open>d1\<close>
  alone: the calls that run out of attempts return the candidate they last tried.
\<close>

theorem Generate_distinct_devices_same_key:
  "snd (snd (run dict_sample world_fixed Pairs_two
       [Call_Generate ''d1'', Call_Generate ''d2'', Call_Generate ''d3'']))
     = [''AAAAAA'', ''AAAAAA'', ''AAAAAA'']
   \<and> \<not> distinct (snd (snd (run dict_sample world_fixed Pairs_two
       [Call_Generate ''d1'', Call_Generate ''d2'', Call_Generate ''d3''])))
   \<and> map_get (keys (fst (snd (run dict_sample world_fixed Pairs_two
       [Call_Generate ''d1'', Call_Generate ''d2'', Call_Generate ''d3''])))) ''AAAAAA''
     = Some \<lparr>DeviceID = ''d1'', Key = ''AAAAAA'', Time = 0\<rparr>"
  by (simp add: eval_defs)

text \<open>
  C3. Redemption is single-use. In a store whose indexes agree, let \<^verbatim>\<open>Generate(d)\<close>
  insert a record for \<open>d\<close> and return \<open>k\<close>. If \<^verbatim>\<open>GetDeviceID(k)\<close> is then called
  while the age of the record is below \<^verbatim>\<open>Expire\<close>, it returns \<open>d\<close> and deletes the
  record from both maps, and any number of further calls \<^verbatim>\<open>GetDeviceID(k)\<close> return
  the empty string and change nothing.
\<close>

theorem GetDeviceID_single_use:
  assumes inv: "index_inv p"
      and gen: "Generate DictAlfa w p d = (w1, p1, k)"
      and ins: "map_get (devices p1) d = Some r"
      and live: "fst (time_Since w2 (Time r)) < sint (Expire p1)"
      and get: "GetDeviceID w2 p1 k = (w3, p3, out)"
  shows "out = d \<and> map_get (keys p3) k = None \<and> map_get (devices p3) d = None
       \<and> (\<forall>w4 n. run DictAlfa w4 p3 (replicate n (Call_GetDeviceID k)) = (w4, p3, replicate n []))"
proof -
  from Generate_success [OF inv gen ins]
  have r: "DeviceID r = d" "Key r = k" and key: "map_get (keys p1) k = Some r"
    by (metis keyInfo.select_convs(1), metis keyInfo.select_convs(2), simp)
  from get live r have out: "out = d"
    and p3: "p3 = p1\<lparr>keys := map_delete (keys p1) k, devices := map_delete (devices p1) d\<rparr>"
    unfolding GetDeviceID_hit [OF key] by auto
  have gone: "map_get (keys p3) k = None" "map_get (devices p3) d = None"
    by (simp_all add: p3 map_get_delete)
  from run_replicate_miss [OF gone(1)] out gone show ?thesis by simp
qed

theorem GetDeviceID_single_use_witness:
  "index_inv Pairs_zero
   \<and> Generate dict_sample world_fresh Pairs_zero ''d1'' = (world_one, Pairs_one, ''AAAAAA'')
   \<and> map_get (devices Pairs_one) ''d1'' = Some \<lparr>DeviceID = ''d1'', Key = ''AAAAAA'', Time = 0\<rparr>
   \<and> fst (time_Since world_one 0) < sint (Expire Pairs_one)
   \<and> snd (snd (GetDeviceID world_one Pairs_one ''AAAAAA'')) = ''d1''
   \<and> run dict_sample world_one (fst (snd (GetDeviceID world_one Pairs_one ''AAAAAA'')))
        (replicate 3 (Call_GetDeviceID ''AAAAAA''))
      = (world_one, fst (snd (GetDeviceID world_one Pairs_one ''AAAAAA'')), [[], [], []])"
proof -
  have live: "fst (time_Since world_one (Time \<lparr>DeviceID = ''d1'', Key = ''AAAAAA'', Time = 0\<rparr>))
                < sint (Expire Pairs_one)"
    by (simp add: Pairs_one_eval time_Since_def time_Now_def time_Sub_def maxDuration_def
        minDuration_def)
  have get: "GetDeviceID world_one Pairs_one ''AAAAAA''
               = (fst (GetDeviceID world_one Pairs_one ''AAAAAA''),
                  fst (snd (GetDeviceID world_one Pairs_one ''AAAAAA'')),
                  snd (snd (GetDeviceID world_one Pairs_one ''AAAAAA'')))"
    by simp
  from GetDeviceID_single_use [OF index_inv_zero Pairs_one_eval(1) Pairs_one_eval(2) live get]
  have "snd (snd (GetDeviceID world_one Pairs_one ''AAAAAA'')) = ''d1''"
    and "run dict_sample world_one (fst (snd (GetDeviceID world_one Pairs_one ''AAAAAA'')))
           (replicate 3 (Call_GetDeviceID ''AAAAAA''))
         = (world_one, fst (snd (GetDeviceID world_one Pairs_one ''AAAAAA'')), replicate 3 [])"
    by blast+
  with live show ?thesis
    by (simp add: index_inv_zero Pairs_one_eval numeral_3_eq_3)
qed

text \<open>
  C4, as the specification states it: after \<^verbatim>\<open>Generate(d)\<close> twice, redeeming the
  first key yields the empty string. It fails when the renderer repeats itself: the
  second call deletes the first record and then issues the same string again, and
  redeeming it yields the device.
\<close>

theorem Generate_twice_same_key_counterexample:
  "snd (snd (run dict_sample world_fixed Pairs_two
       [Call_Generate ''d1'', Call_Generate ''d1'', Call_GetDeviceID ''AAAAAA'']))
     = [''AAAAAA'', ''AAAAAA'', ''d1'']
   \<and> ''d1'' \<noteq> []"
  by (simp add: eval_defs)

text \<open>
  C4, amended. In a store whose indexes agree, let \<^verbatim>\<open>Generate(d)\<close> insert a record
  and return \<open>k1\<close>, and let a second \<^verbatim>\<open>Generate(d)\<close> return \<open>k2\<close>. If the two keys
  differ, \<open>k1\<close> is in \<^verbatim>\<open>keys\<close> no more and redeeming it yields the empty string. If
  the second call inserted nothing, the keys differ and no record of \<open>d\<close> is left in
  either map. If the second call inserted a record, redeeming \<open>k2\<close> before the record
  expires yields \<open>d\<close>. In every case a key that \<^verbatim>\<open>keys\<close> binds to \<open>d\<close> is \<open>k2\<close>: the
  device holds at most one key.
\<close>

theorem Generate_twice:
  assumes inv: "index_inv p"
      and g1: "Generate DictAlfa w p d = (w1, p1, k1)"
      and i1: "map_get (devices p1) d = Some r1"
      and g2: "Generate DictAlfa w1' p1 d = (w2, p2, k2)"
  shows "(k1 \<noteq> k2 \<longrightarrow>
            map_get (keys p2) k1 = None \<and> (\<forall>w3. GetDeviceID w3 p2 k1 = (w3, p2, [])))
       \<and> (map_get (devices p2) d = None \<longrightarrow>
            k1 \<noteq> k2 \<and> (\<forall>k r. map_get (keys p2) k = Some r \<longrightarrow> DeviceID r \<noteq> d))
       \<and> (\<forall>r2 w3. map_get (devices p2) d = Some r2
              \<and> fst (time_Since w3 (Time r2)) < sint (Expire p2) \<longrightarrow>
            snd (snd (GetDeviceID w3 p2 k2)) = d)
       \<and> (\<forall>k r. map_get (keys p2) k = Some r \<and> DeviceID r = d \<longrightarrow> k = k2)"
proof -
  have inv1: "index_inv p1" by (rule Generate_index_inv [OF inv g1])
  have inv2: "index_inv p2" by (rule Generate_index_inv [OF inv1 g2])
  from Generate_success [OF inv g1 i1]
  have r1: "Key r1 = k1" by (metis keyInfo.select_convs(2))
  define ksA where "ksA = (map_get (keys p1))(k1 := None)"
  have ksA: "(case map_get (devices p1) d of None \<Rightarrow> map_get (keys p1)
              | Some r \<Rightarrow> (map_get (keys p1))(Key r := None)) = ksA"
    by (simp add: i1 r1 ksA_def)
  have old_gone: "map_get (keys p2) k1 = None" if "k1 \<noteq> k2"
    using Generate_cases [OF inv1 g2] that unfolding ksA
    by (elim disjE conjE exE) (auto simp: ksA_def split: option.splits)
  have exhausted: "k1 \<noteq> k2" if "map_get (devices p2) d = None"
  proof -
    from Generate_exhausted(2,3) [OF inv1 g2 that] have "ksA k2 \<noteq> None"
      unfolding ksA by simp
    then show ?thesis by (auto simp: ksA_def)
  qed
  have own: "k = k2" if "map_get (keys p2) k = Some r" "DeviceID r = d" for k r
  proof -
    from index_inv_keys [OF inv2 that(1)] that(2)
    have k: "Key r = k" and dev: "map_get (devices p2) d = Some r" by simp_all
    from Generate_success [OF inv1 g2 dev] have "Key r = k2"
      by (metis keyInfo.select_convs(2))
    with k show ?thesis by simp
  qed
  have none: "DeviceID r \<noteq> d" if "map_get (devices p2) d = None" "map_get (keys p2) k = Some r"
    for k r
    using index_inv_keys [OF inv2 that(2)] that(1) by auto
  have redeem: "snd (snd (GetDeviceID w3 p2 k2)) = d"
    if "map_get (devices p2) d = Some r2" "fst (time_Since w3 (Time r2)) < sint (Expire p2)"
    for r2 w3
  proof -
    from Generate_success [OF inv1 g2 that(1)]
    have "DeviceID r2 = d" and key: "map_get (keys p2) k2 = Some r2"
      by (metis keyInfo.select_convs(1), simp)
    with that(2) show ?thesis
      unfolding GetDeviceID_hit [OF key] by simp
  qed
  show ?thesis
    using old_gone GetDeviceID_miss exhausted none redeem own by blast
qed

theorem Generate_twice_witness:
  "index_inv Pairs_zero
   \<and> Generate dict_sample world_fresh Pairs_zero ''d1'' = (world_one, Pairs_one, ''AAAAAA'')
   \<and> map_get (devices Pairs_one) ''d1'' = Some \<lparr>DeviceID = ''d1'', Key = ''AAAAAA'', Time = 0\<rparr>
   \<and> Generate dict_sample world_one Pairs_one ''d1'' = (world_again, Pairs_again, ''AAAAAB'')
   \<and> map_get (keys Pairs_again) ''AAAAAA'' = None
   \<and> GetDeviceID world_again Pairs_again ''AAAAAA'' = (world_again, Pairs_again, [])
   \<and> map_get (devices Pairs_again) ''d1'' = Some \<lparr>DeviceID = ''d1'', Key = ''AAAAAB'', Time = 1\<rparr>
   \<and> fst (time_Since world_again 1) < sint (Expire Pairs_again)
   \<and> snd (snd (GetDeviceID world_again Pairs_again ''AAAAAB'')) = ''d1''
   \<and> index_inv (fst (snd stuck_1))
   \<and> map_get (devices (fst (snd stuck_2))) ''d2''
        = Some \<lparr>DeviceID = ''d2'', Key = ''AAAAAB'', Time = 1\<rparr>
   \<and> map_get (devices (fst (snd stuck_3))) ''d2'' = None
   \<and> map_get (keys (fst (snd stuck_3))) ''AAAAAB'' = None
   \<and> snd (snd (GetDeviceID world_again (fst (snd stuck_3)) ''AAAAAB'')) = []"
proof -
  have ne: "''AAAAAA'' \<noteq> ''AAAAAB''" by simp
  have live: "fst (time_Since world_again (Time \<lparr>DeviceID = ''d1'', Key = ''AAAAAB'', Time = 1\<rparr>))
                < sint (Expire Pairs_again)"
    by (simp add: Pairs_again_eval time_Since_def time_Now_def time_Sub_def maxDuration_def
        minDuration_def)
  from Generate_twice [OF index_inv_zero Pairs_one_eval(1) Pairs_one_eval(2) Pairs_again_eval(1)]
    ne Pairs_again_eval(2) live
  have a: "map_get (keys Pairs_again) ''AAAAAA'' = None"
    "GetDeviceID world_again Pairs_again ''AAAAAA'' = (world_again, Pairs_again, [])"
    "snd (snd (GetDeviceID world_again Pairs_again ''AAAAAB'')) = ''d1''"
    by blast+
  have inv1: "index_inv (fst (snd stuck_1))"
    by (rule Generate_index_inv [OF index_inv_two stuck_eval(1)])
  have ne': "''AAAAAB'' \<noteq> ''AAAAAA''" by simp
  from Generate_twice [OF inv1 stuck_eval(2) stuck_eval(4) stuck_eval(3)] ne'
  have b: "map_get (keys (fst (snd stuck_3))) ''AAAAAB'' = None"
    "GetDeviceID world_again (fst (snd stuck_3)) ''AAAAAB''
       = (world_again, fst (snd stuck_3), [])"
    by blast+
  from a b inv1 live show ?thesis
    by (simp add: index_inv_zero Pairs_one_eval Pairs_again_eval stuck_eval)
qed

text \<open>
  C5. In a store whose indexes agree, if \<^verbatim>\<open>GetDeviceID(k)\<close> finds a record under
  \<open>k\<close> whose age is not less than \<^verbatim>\<open>Expire\<close>, it returns the empty string and
  deletes the record from both maps; a following \<^verbatim>\<open>GetDeviceID(k)\<close> returns the empty
  string too.
\<close>

theorem GetDeviceID_expired:
  assumes inv: "index_inv p"
      and key: "map_get (keys p) k = Some r"
      and dead: "\<not> fst (time_Since w (Time r)) < sint (Expire p)"
      and get: "GetDeviceID w p k = (w', p', out)"
  shows "out = [] \<and> map_get (keys p') k = None \<and> map_get (devices p') (DeviceID r) = None
       \<and> (\<forall>w2. GetDeviceID w2 p' k = (w2, p', []))"
proof -
  from index_inv_keys [OF inv key] have r: "Key r = k" by simp
  from get dead r have out: "out = []"
    and p': "p' = p\<lparr>keys := map_delete (keys p) k,
                     devices := map_delete (devices p) (DeviceID r)\<rparr>"
    unfolding GetDeviceID_hit [OF key] by simp_all
  have gone: "map_get (keys p') k = None" "map_get (devices p') (DeviceID r) = None"
    by (simp_all add: p' map_get_delete)
  from GetDeviceID_miss [OF gone(1)] out gone show ?thesis by simp
qed

theorem GetDeviceID_expired_witness:
  "index_inv Pairs_one
   \<and> map_get (keys Pairs_one) ''AAAAAA'' = Some \<lparr>DeviceID = ''d1'', Key = ''AAAAAA'', Time = 0\<rparr>
   \<and> \<not> fst (time_Since world_late 0) < sint (Expire Pairs_one)
   \<and> snd (snd (GetDeviceID world_late Pairs_one ''AAAAAA'')) = []
   \<and> map_get (keys (fst (snd (GetDeviceID world_late Pairs_one ''AAAAAA'')))) ''AAAAAA'' = None
   \<and> map_get (devices (fst (snd (GetDeviceID world_late Pairs_one ''AAAAAA'')))) ''d1'' = None
   \<and> snd (snd (GetDeviceID world_late
         (fst (snd (GetDeviceID world_late Pairs_one ''AAAAAA''))) ''AAAAAA'')) = []"
proof -
  have dead: "\<not> fst (time_Since world_late (Time \<lparr>DeviceID = ''d1'', Key = ''AAAAAA'', Time = 0\<rparr>))
                < sint (Expire Pairs_one)"
    by (simp add: Pairs_one_eval world_late_def time_Since_def time_Now_def time_Sub_def
        maxDuration_def minDuration_def)
  have get: "GetDeviceID world_late Pairs_one ''AAAAAA''
               = (fst (GetDeviceID world_late Pairs_one ''AAAAAA''),
                  fst (snd (GetDeviceID world_late Pairs_one ''AAAAAA'')),
                  snd (snd (GetDeviceID world_late Pairs_one ''AAAAAA'')))"
    by simp
  from GetDeviceID_expired [OF index_inv_one Pairs_one_eval(3) dead get] dead
  show ?thesis
    by (simp add: index_inv_one Pairs_one_eval)
qed

text \<open>
  C6. \<^verbatim>\<open>GetDeviceID\<close> called with a key that \<^verbatim>\<open>keys\<close> does not hold returns the
  empty string and leaves the store as it was: both maps, the configuration, and so
  the size of each map. It does not read the clock either.
\<close>

theorem GetDeviceID_unknown_key:
  assumes "map_get (keys p) key = None"
  shows "GetDeviceID w p key = (w, p, [])"
  using assms by (rule GetDeviceID_miss)

theorem GetDeviceID_unknown_key_witness:
  "map_get (keys Pairs_one) ''nonexistent'' = None
   \<and> GetDeviceID world_one Pairs_one ''nonexistent'' = (world_one, Pairs_one, [])"
  using GetDeviceID_unknown_key [of Pairs_one "''nonexistent''" world_one]
  by (simp add: Pairs_one_eval)

text \<open>
  C7. After any sequence of \<^verbatim>\<open>Generate\<close> and \<^verbatim>\<open>GetDeviceID\<close> calls on a store that
  started with both maps \<^verbatim>\<open>nil\<close>, a record is filed in \<^verbatim>\<open>devices\<close> under its
  \<^verbatim>\<open>DeviceID\<close> exactly when it is filed in \<^verbatim>\<open>keys\<close> under its \<^verbatim>\<open>Key\<close>, no
  record is filed under another name, both maps are finite and they have the same size.
\<close>

theorem run_indexes_agree:
  assumes "devices p = None" and "keys p = None"
      and "run DictAlfa w p cs = (w', p', outs)"
  shows "(\<forall>r. map_get (devices p') (DeviceID r) = Some r \<longleftrightarrow> map_get (keys p') (Key r) = Some r)
       \<and> (\<forall>d r. map_get (devices p') d = Some r \<longrightarrow> DeviceID r = d)
       \<and> (\<forall>k r. map_get (keys p') k = Some r \<longrightarrow> Key r = k)
       \<and> finite (map_dom (devices p')) \<and> finite (map_dom (keys p'))
       \<and> card (map_dom (devices p')) = card (map_dom (keys p'))"
proof -
  from assms(1,2) have "store_ok p"
    by (simp add: store_ok_def index_inv_def map_dom_def map_get_def)
  from run_store_ok [OF this assms(3)]
  have inv: "index_inv p'" and fin: "finite (map_dom (devices p'))" "finite (map_dom (keys p'))"
    by (simp_all add: store_ok_def)
  have "map_get (devices p') (DeviceID r) = Some r \<longleftrightarrow> map_get (keys p') (Key r) = Some r" for r
    using index_inv_devices [OF inv] index_inv_keys [OF inv] by blast
  moreover have "\<forall>d r. map_get (devices p') d = Some r \<longrightarrow> DeviceID r = d"
    using index_inv_devices [OF inv] by blast
  moreover have "\<forall>k r. map_get (keys p') k = Some r \<longrightarrow> Key r = k"
    using index_inv_keys [OF inv] by blast
  ultimately show ?thesis using fin index_inv_card [OF inv] by blast
qed

theorem run_indexes_agree_witness:
  "devices Pairs_zero = None \<and> keys Pairs_zero = None
   \<and> map_get (devices (fst (snd (run dict_sample world_fresh Pairs_zero calls_sample)))) ''d2''
        = Some \<lparr>DeviceID = ''d2'', Key = ''AAAAAB'', Time = 1\<rparr>
   \<and> map_get (keys (fst (snd (run dict_sample world_fresh Pairs_zero calls_sample)))) ''AAAAAB''
        = Some \<lparr>DeviceID = ''d2'', Key = ''AAAAAB'', Time = 1\<rparr>
   \<and> card (map_dom (devices (fst (snd (run dict_sample world_fresh Pairs_zero calls_sample)))))
        = card (map_dom (keys (fst (snd (run dict_sample world_fresh Pairs_zero calls_sample)))))"
proof -
  have z: "devices Pairs_zero = None" "keys Pairs_zero = None"
    by (simp_all add: Pairs_zero_def)
  have r: "run dict_sample world_fresh Pairs_zero calls_sample
             = (fst (run dict_sample world_fresh Pairs_zero calls_sample),
                fst (snd (run dict_sample world_fresh Pairs_zero calls_sample)),
                snd (snd (run dict_sample world_fresh Pairs_zero calls_sample)))"
    by simp
  have d: "map_get (devices (fst (snd (run dict_sample world_fresh Pairs_zero calls_sample)))) ''d2''
        = Some \<lparr>DeviceID = ''d2'', Key = ''AAAAAB'', Time = 1\<rparr>"
    by (simp add: eval_defs calls_sample_def)
  from run_indexes_agree [OF z r]
  have "map_get (devices (fst (snd (run dict_sample world_fresh Pairs_zero calls_sample))))
          (DeviceID \<lparr>DeviceID = ''d2'', Key = ''AAAAAB'', Time = 1\<rparr>)
          = Some \<lparr>DeviceID = ''d2'', Key = ''AAAAAB'', Time = 1\<rparr>
        \<longleftrightarrow> map_get (keys (fst (snd (run dict_sample world_fresh Pairs_zero calls_sample))))
          (Key \<lparr>DeviceID = ''d2'', Key = ''AAAAAB'', Time = 1\<rparr>)
          = Some \<lparr>DeviceID = ''d2'', Key = ''AAAAAB'', Time = 1\<rparr>"
    and "card (map_dom (devices (fst (snd (run dict_sample world_fresh Pairs_zero calls_sample)))))
        = card (map_dom (keys (fst (snd (run dict_sample world_fresh Pairs_zero calls_sample)))))"
    by blast+
  with d z show ?thesis by simp
qed

text \<open>
  C8. A call of \<^verbatim>\<open>Generate\<close> replaces each configuration field that is zero by its
  default (the alphabet by \<open>DictAlfa\<close>, the length by 6, the lifetime by 30 minutes,
  which is 30 * 60 * 1000000000 nanoseconds, the number of attempts by 1000) and
  leaves every field that is not zero as it is.
\<close>

theorem Generate_defaults:
  assumes "Generate DictAlfa w p d = (w', p', k)"
  shows "Dictionary p' = (if length (Dictionary p) = 0 then DictAlfa else Dictionary p)
       \<and> Length p' = (if Length p = 0 then 6 else Length p)
       \<and> Expire p' = (if Expire p = 0 then 30 * 60 * 1000000000 else Expire p)
       \<and> MaxIter p' = (if MaxIter p = 0 then 1000 else MaxIter p)"
  using Generate_config [OF assms] by simp

theorem Generate_defaults_witness:
  "Generate dict_sample world_fresh Pairs_zero ''d1'' = (world_one, Pairs_one, ''AAAAAA'')
   \<and> Dictionary Pairs_one = dict_sample \<and> Length Pairs_one = 6
   \<and> sint (Expire Pairs_one) = 30 * 60 * 1000000000 \<and> MaxIter Pairs_one = 1000
   \<and> Dictionary (fst (snd (Generate dict_sample world_fresh Pairs_set ''d1''))) = ''01''
   \<and> Length (fst (snd (Generate dict_sample world_fresh Pairs_set ''d1''))) = 4
   \<and> Expire (fst (snd (Generate dict_sample world_fresh Pairs_set ''d1''))) = 5000000000
   \<and> MaxIter (fst (snd (Generate dict_sample world_fresh Pairs_set ''d1''))) = 3"
proof -
  have g: "Generate dict_sample world_fresh Pairs_set ''d1''
             = (fst (Generate dict_sample world_fresh Pairs_set ''d1''),
                fst (snd (Generate dict_sample world_fresh Pairs_set ''d1'')),
                snd (snd (Generate dict_sample world_fresh Pairs_set ''d1'')))"
    by simp
  from Generate_defaults [OF Pairs_one_eval(1)] Generate_defaults [OF g]
  have "Dictionary Pairs_one = dict_sample \<and> Length Pairs_one = 6
   \<and> sint (Expire Pairs_one) = 30 * 60 * 1000000000 \<and> MaxIter Pairs_one = 1000
   \<and> Dictionary (fst (snd (Generate dict_sample world_fresh Pairs_set ''d1''))) = ''01''
   \<and> Length (fst (snd (Generate dict_sample world_fresh Pairs_set ''d1''))) = 4
   \<and> Expire (fst (snd (Generate dict_sample world_fresh Pairs_set ''d1''))) = 5000000000
   \<and> MaxIter (fst (snd (Generate dict_sample world_fresh Pairs_set ''d1''))) = 3"
    by (simp add: Pairs_zero_def Pairs_set_def)
  with Pairs_one_eval(1) show ?thesis
    by blast
qed

text \<open>
  C9. \<^verbatim>\<open>Generate\<close> returns on every input (the loop is a total function, by its
  termination proof), and a call invokes the renderer at least once and at most
  \<^verbatim>\<open>MaxIter\<close> times, where \<^verbatim>\<open>MaxIter\<close> is the value after defaulting, at most 65535.
\<close>

theorem Generate_terminates:
  "\<exists>w' p' k. Generate DictAlfa w p d = (w', p', k)
     \<and> MaxIter p' = (if MaxIter p = 0 then 1000 else MaxIter p)
     \<and> rnd_calls w < rnd_calls w'
     \<and> rnd_calls w' - rnd_calls w \<le> unat (MaxIter p')
     \<and> unat (MaxIter p') \<le> 65535"
proof -
  obtain w' p' k where g: "Generate DictAlfa w p d = (w', p', k)"
    by (metis prod_cases3)
  define pc where "pc = p\<lparr>Dictionary := (if Dictionary p = [] then DictAlfa else Dictionary p),
                  Length := (if Length p = 0 then 6 else Length p),
                  Expire := (if Expire p = 0 then 1800000000000 else Expire p),
                  MaxIter := (if MaxIter p = 0 then 1000 else MaxIter p)\<rparr>"
  have mi: "0 < unat (MaxIter pc)"
    by (simp add: pc_def unat_gt_0)
  from g obtain dv ks dv' ks' where
    loop: "Generate_loop w pc d dv ks 0 [] = (w', dv', ks', k)"
    unfolding Generate_unfold Let_def pc_def [symmetric]
    by (auto split: prod.splits)
  from Generate_loop_world [OF loop] mi
  have "rnd_calls w < rnd_calls w'" "rnd_calls w' - rnd_calls w \<le> unat (MaxIter pc)"
    by auto
  moreover have "MaxIter p' = MaxIter pc"
    using Generate_config(4) [OF g] by (simp add: pc_def)
  moreover have "unat (MaxIter p') \<le> 65535"
    using unsigned_less [of "MaxIter p'", where ?'a = nat] by simp
  ultimately show ?thesis
    using g Generate_config(4) [OF g] by auto
qed

text \<open>
  C10. \<^verbatim>\<open>Generate\<close> does not inspect its argument. Called with the empty string on a
  store whose indexes agree, it inserts a record as soon as one of its attempts is free,
  as it does for any other device: the returned key is bound to the device \<^verbatim>\<open>""\<close> in
  both maps. \<^verbatim>\<open>GetDeviceID\<close> of that key then returns the empty string (whether the
  record has expired or not) and consumes the record: the caller sees the answer of a
  failed lookup.
\<close>

theorem Generate_empty_deviceID:
  assumes inv: "index_inv p"
      and gen: "Generate DictAlfa w p [] = (w1, p1, k)"
      and j: "j < unat (MaxIter p1)"
      and free: "attempt_free w p1
                   (case map_get (devices p) [] of None \<Rightarrow> map_get (keys p)
                    | Some r \<Rightarrow> (map_get (keys p))(Key r := None)) j"
      and get: "GetDeviceID w2 p1 k = (w3, p3, out)"
  shows "(\<exists>t. map_get (devices p1) [] = Some \<lparr>DeviceID = [], Key = k, Time = t\<rparr>
            \<and> map_get (keys p1) k = Some \<lparr>DeviceID = [], Key = k, Time = t\<rparr>)
       \<and> out = [] \<and> map_get (keys p3) k = None \<and> map_get (devices p3) [] = None"
proof -
  from Generate_inserts [OF inv gen j free]
  obtain t where dev: "map_get (devices p1) [] = Some \<lparr>DeviceID = [], Key = k, Time = t\<rparr>"
    and key: "map_get (keys p1) k = Some \<lparr>DeviceID = [], Key = k, Time = t\<rparr>"
    by blast
  from get have out: "out = []"
    and p3: "p3 = p1\<lparr>keys := map_delete (keys p1) k, devices := map_delete (devices p1) []\<rparr>"
    unfolding GetDeviceID_hit [OF key] by auto
  have gone: "map_get (keys p3) k = None" "map_get (devices p3) [] = None"
    by (simp_all add: p3 map_get_delete)
  with dev key out show ?thesis by blast
qed

theorem Generate_empty_deviceID_witness:
  "index_inv Pairs_one
   \<and> Generate dict_sample world_retry Pairs_one []
        = (fst retry_empty, fst (snd retry_empty), ''AAAAAB'')
   \<and> (1::nat) < unat (MaxIter (fst (snd retry_empty)))
   \<and> \<not> attempt_free world_retry (fst (snd retry_empty)) (map_get (keys Pairs_one)) 0
   \<and> attempt_free world_retry (fst (snd retry_empty)) (map_get (keys Pairs_one)) 1
   \<and> map_get (keys (fst (snd retry_empty))) ''AAAAAA''
        = Some \<lparr>DeviceID = ''d1'', Key = ''AAAAAA'', Time = 0\<rparr>
   \<and> map_get (devices (fst (snd retry_empty))) [] \<noteq> None
   \<and> map_get (keys (fst (snd retry_empty))) ''AAAAAB'' \<noteq> None
   \<and> snd (snd (GetDeviceID (fst retry_empty) (fst (snd retry_empty)) ''AAAAAB'')) = []
   \<and> map_get (keys (fst (snd (GetDeviceID (fst retry_empty) (fst (snd retry_empty))
        ''AAAAAB'')))) ''AAAAAB'' = None"
proof -
  have free: "attempt_free world_retry (fst (snd retry_empty))
                (case map_get (devices Pairs_one) [] of None \<Rightarrow> map_get (keys Pairs_one)
                 | Some r \<Rightarrow> (map_get (keys Pairs_one))(Key r := None)) 1"
    using retry_empty_eval(5) by (simp only: retry_empty_eval(2) option.case)
  have get: "GetDeviceID (fst retry_empty) (fst (snd retry_empty)) ''AAAAAB''
             = (fst (GetDeviceID (fst retry_empty) (fst (snd retry_empty)) ''AAAAAB''),
                fst (snd (GetDeviceID (fst retry_empty) (fst (snd retry_empty)) ''AAAAAB'')),
                snd (snd (GetDeviceID (fst retry_empty) (fst (snd retry_empty)) ''AAAAAB'')))"
    by simp
  from Generate_empty_deviceID [OF index_inv_one retry_empty_eval(1) retry_empty_eval(3) free get]
  have "map_get (devices (fst (snd retry_empty))) [] \<noteq> None"
    "map_get (keys (fst (snd retry_empty))) ''AAAAAB'' \<noteq> None"
    "snd (snd (GetDeviceID (fst retry_empty) (fst (snd retry_empty)) ''AAAAAB'')) = []"
    "map_get (keys (fst (snd (GetDeviceID (fst retry_empty) (fst (snd retry_empty))
        ''AAAAAB'')))) ''AAAAAB'' = None"
    by auto
  with index_inv_one retry_empty_eval show ?thesis
    by blast
qed

end
